theory Spec2Isabelle
  imports Complex_Main
begin

section \<open>JavaScript numbers\<close>

text \<open>
  The component computes with JavaScript numbers. They are modelled by the four kinds of
  value that decide the program's control flow: \<open>NaN\<close>, the two infinities and the finite
  numbers. Arithmetic on finite numbers is the exact arithmetic of the reals: the rounding of
  IEEE-754 doubles, overflow to an infinity and the sign of zero are not modelled (a zero
  divisor is taken as \<open>+0\<close>). Every comparison with \<open>NaN\<close> is false, as in the language.
\<close>

datatype jsnum = NaN | PInf | NInf | Fin real

fun js_mul :: "jsnum \<Rightarrow> jsnum \<Rightarrow> jsnum" where
  "js_mul NaN y = NaN"
| "js_mul x NaN = NaN"
| "js_mul (Fin a) (Fin b) = Fin (a * b)"
| "js_mul (Fin a) PInf = (if a = 0 then NaN else if 0 < a then PInf else NInf)"
| "js_mul (Fin a) NInf = (if a = 0 then NaN else if 0 < a then NInf else PInf)"
| "js_mul PInf (Fin b) = (if b = 0 then NaN else if 0 < b then PInf else NInf)"
| "js_mul NInf (Fin b) = (if b = 0 then NaN else if 0 < b then NInf else PInf)"
| "js_mul PInf PInf = PInf"
| "js_mul PInf NInf = NInf"
| "js_mul NInf PInf = NInf"
| "js_mul NInf NInf = PInf"

fun js_div :: "jsnum \<Rightarrow> jsnum \<Rightarrow> jsnum" where
  "js_div NaN y = NaN"
| "js_div x NaN = NaN"
| "js_div (Fin a) (Fin b) =
     (if b = 0 then (if a = 0 then NaN else if 0 < a then PInf else NInf) else Fin (a / b))"
| "js_div (Fin a) PInf = Fin 0"
| "js_div (Fin a) NInf = Fin 0"
| "js_div PInf (Fin b) = (if 0 \<le> b then PInf else NInf)"
| "js_div NInf (Fin b) = (if 0 \<le> b then NInf else PInf)"
| "js_div PInf PInf = NaN"
| "js_div PInf NInf = NaN"
| "js_div NInf PInf = NaN"
| "js_div NInf NInf = NaN"

fun js_add :: "jsnum \<Rightarrow> jsnum \<Rightarrow> jsnum" where
  "js_add NaN y = NaN"
| "js_add x NaN = NaN"
| "js_add (Fin a) (Fin b) = Fin (a + b)"
| "js_add (Fin a) PInf = PInf"
| "js_add (Fin a) NInf = NInf"
| "js_add PInf (Fin b) = PInf"
| "js_add NInf (Fin b) = NInf"
| "js_add PInf PInf = PInf"
| "js_add PInf NInf = NaN"
| "js_add NInf PInf = NaN"
| "js_add NInf NInf = NInf"

text \<open>\<open>Math.abs\<close>.\<close>

fun js_abs :: "jsnum \<Rightarrow> jsnum" where
  "js_abs NaN = NaN"
| "js_abs PInf = PInf"
| "js_abs NInf = PInf"
| "js_abs (Fin a) = Fin \<bar>a\<bar>"

text \<open>The comparison \<open>x >= y\<close>; \<open>x <= y\<close> is \<open>y >= x\<close>.\<close>

fun js_ge :: "jsnum \<Rightarrow> jsnum \<Rightarrow> bool" where
  "js_ge NaN y = False"
| "js_ge x NaN = False"
| "js_ge PInf y = True"
| "js_ge x NInf = True"
| "js_ge (Fin a) (Fin b) = (b \<le> a)"
| "js_ge (Fin a) PInf = False"
| "js_ge NInf (Fin b) = False"
| "js_ge NInf PInf = False"

definition js_le :: "jsnum \<Rightarrow> jsnum \<Rightarrow> bool" where
  "js_le x y = js_ge y x"

text \<open>\<open>Math.asin\<close> is \<open>NaN\<close> outside \<open>[-1, 1]\<close>; \<open>Math.tan\<close> is \<open>NaN\<close> at the infinities.\<close>

fun js_asin :: "jsnum \<Rightarrow> jsnum" where
  "js_asin (Fin a) = (if - 1 \<le> a \<and> a \<le> 1 then Fin (arcsin a) else NaN)"
| "js_asin x = NaN"

fun js_tan :: "jsnum \<Rightarrow> jsnum" where
  "js_tan (Fin a) = Fin (tan a)"
| "js_tan x = NaN"

section \<open>Strings and numbers\<close>

text \<open>
  \<open>Number.prototype.toString\<close> and template interpolation of a non-negative integer
  (below \<open>10^21\<close>, where the language still prints every digit).
\<close>

fun show_nat :: "nat \<Rightarrow> string" where
  "show_nat n =
     (if n < 10 then [''0123456789'' ! n]
      else show_nat (n div 10) @ [''0123456789'' ! (n mod 10)])"

declare show_nat.simps [simp del]

definition isDigit :: "char \<Rightarrow> bool" where
  "isDigit c = (c \<in> set ''0123456789'')"

definition digitVal :: "char \<Rightarrow> nat" where
  "digitVal c = of_char c - 48"

definition digitsVal :: "string \<Rightarrow> nat" where
  "digitsVal ds = foldl (\<lambda>n c. 10 * n + digitVal c) 0 ds"

text \<open>The ASCII members of \<open>StrWhiteSpaceChar\<close>: tab, LF, VT, FF, CR and space.\<close>

definition isStrWhiteSpace :: "char \<Rightarrow> bool" where
  "isStrWhiteSpace c = (of_char c \<in> {9, 10, 11, 12, 13, 32 :: nat})"

text \<open>
  The exponent part of a decimal literal: \<open>e\<close> or \<open>E\<close>, an optional sign and at least one
  digit. Anything else is not part of the literal and counts as exponent 0.
\<close>

definition exponentPart :: "string \<Rightarrow> int" where
  "exponentPart r =
     (case r of
        [] \<Rightarrow> 0
      | c # r1 \<Rightarrow>
          if c = CHR ''e'' \<or> c = CHR ''E'' then
            (case r1 of
               [] \<Rightarrow> 0
             | d # r2 \<Rightarrow>
                 if d = CHR ''-'' then
                   (if takeWhile isDigit r2 = [] then 0
                    else - int (digitsVal (takeWhile isDigit r2)))
                 else if d = CHR ''+'' then int (digitsVal (takeWhile isDigit r2))
                 else int (digitsVal (takeWhile isDigit r1)))
          else 0)"

text \<open>
  \<open>parseFloat\<close>: skip leading white space, read the longest prefix that is a signed decimal
  literal or \<open>Infinity\<close>, and return its value; \<open>NaN\<close> when there is no such prefix. In
  particular the empty string gives \<open>NaN\<close>.
\<close>

definition parseFloat :: "string \<Rightarrow> jsnum" where
  "parseFloat s =
     (let t = dropWhile isStrWhiteSpace s;
          neg = (t \<noteq> [] \<and> hd t = CHR ''-'');
          u = (if t \<noteq> [] \<and> (hd t = CHR ''-'' \<or> hd t = CHR ''+'') then tl t else t)
      in if take 8 u = ''Infinity'' then (if neg then NInf else PInf)
         else
           let ip = takeWhile isDigit u;
               r1 = dropWhile isDigit u;
               dot = (r1 \<noteq> [] \<and> hd r1 = CHR ''.'');
               fp = (if dot then takeWhile isDigit (tl r1) else []);
               r2 = (if dot then dropWhile isDigit (tl r1) else r1)
           in if ip = [] \<and> fp = [] then NaN
              else
                let e = exponentPart r2;
                    mant = real (digitsVal ip) + real (digitsVal fp) / 10 ^ length fp;
                    v = (if 0 \<le> e then mant * 10 ^ nat e else mant / 10 ^ nat (- e))
                in Fin (if neg then - v else v))"

section \<open>The parameter store\<close>

text \<open>
  The component's state cells (\<open>useState\<close>). The three text fields hold strings; the zoom
  slider holds an array of numbers, of which the first is used.
\<close>

record params =
  wavelength :: string
  distance :: string
  particleSize :: string
  selectedMaterial :: string
  zoomLevel :: "jsnum list"

definition initialParams :: params where
  "initialParams =
     \<lparr>wavelength = ''650'', distance = ''100'', particleSize = ''10'',
      selectedMaterial = ''lycopodium'', zoomLevel = [Fin 1]\<rparr>"

text \<open>
  The preset table \<open>materialsData\<close>: the outer \<open>None\<close> is a key the object does not have
  (\<open>undefined\<close>), \<open>Some None\<close> is \<open>null\<close>. The keys are the three values the material
  selector offers.
\<close>

definition materialsData :: "string \<Rightarrow> nat option option" where
  "materialsData k =
     (if k = ''lycopodium'' then Some (Some 30)
      else if k = ''silica'' then Some (Some 5)
      else if k = ''custom'' then Some None
      else None)"

text \<open>Truthiness of a table entry: \<open>undefined\<close>, \<open>null\<close> and \<open>0\<close> are falsy.\<close>

definition truthy :: "nat option option \<Rightarrow> bool" where
  "truthy v = (case v of Some (Some n) \<Rightarrow> n \<noteq> 0 | _ \<Rightarrow> False)"

text \<open>\<open>v?.toString() || '10'\<close>: the printed number unless that string is empty.\<close>

definition presetText :: "nat option option \<Rightarrow> string" where
  "presetText v =
     (case v of
        Some (Some n) \<Rightarrow> (if show_nat n = [] then ''10'' else show_nat n)
      | _ \<Rightarrow> ''10'')"

text \<open>The effect that runs when \<open>selectedMaterial\<close> has changed.\<close>

definition materialEffect :: "params \<Rightarrow> params" where
  "materialEffect st =
     (if selectedMaterial st \<noteq> ''custom'' \<and> truthy (materialsData (selectedMaterial st))
      then st\<lparr>particleSize := presetText (materialsData (selectedMaterial st))\<rparr>
      else st)"

text \<open>
  The selector's \<open>onChange\<close>: store the new material; the effect depends on
  \<open>selectedMaterial\<close> only, so it runs exactly when the stored value changed.
\<close>

definition changeMaterial :: "string \<Rightarrow> params \<Rightarrow> params" where
  "changeMaterial v st =
     (if v = selectedMaterial st then st
      else materialEffect (st\<lparr>selectedMaterial := v\<rparr>))"

text \<open>The \<open>disabled\<close> binding of the particle-size field.\<close>

definition particleSizeDisabled :: "params \<Rightarrow> bool" where
  "particleSizeDisabled st = (selectedMaterial st \<noteq> ''custom'')"

text \<open>
  The particle-size field's \<open>onChange\<close> stores the typed text; a disabled field accepts no
  typing.
\<close>

definition editParticleSize :: "string \<Rightarrow> params \<Rightarrow> params" where
  "editParticleSize v st = (if particleSizeDisabled st then st else st\<lparr>particleSize := v\<rparr>)"

section \<open>The canvas\<close>

text \<open>
  A canvas is its size, whether \<open>getContext('2d')\<close> yields a context, and the sequence of
  calls made on it and on its context so far. The pixels are a function of that sequence,
  so two canvases with the same sequence show the same picture.
\<close>

datatype call =
    SetFillStyle string
  | SetStrokeStyle string
  | SetLineWidth jsnum
  | SetFont string
  | FillRect jsnum jsnum jsnum jsnum
  | BeginPath
  | MoveTo jsnum jsnum
  | LineTo jsnum jsnum
  | Arc jsnum jsnum jsnum jsnum jsnum
  | Stroke
  | Fill
  | FillText string jsnum jsnum
  | SetWidth nat
  | SetHeight nat
  | DrawImage "call list" nat nat jsnum jsnum

record canvas =
  cwidth :: nat
  cheight :: nat
  has2d :: bool
  calls :: "call list"

datatype error = IndexSizeError | InvalidStateError | TypeError

text \<open>
  \<open>arc\<close> returns without effect when an argument is not finite, and otherwise raises
  \<open>IndexSizeError\<close> for a negative radius. The angles passed here are finite constants.
\<close>

definition arcRaises :: "jsnum \<Rightarrow> jsnum \<Rightarrow> jsnum \<Rightarrow> bool" where
  "arcRaises x y r =
     (case (x, y, r) of (Fin a, Fin b, Fin c) \<Rightarrow> c < 0 | _ \<Rightarrow> False)"

text \<open>\<open>Math.min\<close> of two numbers.\<close>

definition js_min :: "jsnum \<Rightarrow> jsnum \<Rightarrow> jsnum" where
  "js_min x y = (if x = NaN \<or> y = NaN then NaN else if js_ge y x then x else y)"

section \<open>The diffraction formula\<close>

definition wavelengthSI :: "params \<Rightarrow> jsnum" where
  "wavelengthSI st = js_mul (parseFloat (wavelength st)) (Fin (1 / 10 ^ 9))"

definition distanceSI :: "params \<Rightarrow> jsnum" where
  "distanceSI st = js_mul (parseFloat (distance st)) (Fin (1 / 10 ^ 2))"

definition particleSizeSI :: "params \<Rightarrow> jsnum" where
  "particleSizeSI st = js_mul (parseFloat (particleSize st)) (Fin (1 / 10 ^ 6))"

definition sinThetaOf :: "params \<Rightarrow> nat \<Rightarrow> jsnum" where
  "sinThetaOf st m = js_div (js_mul (Fin (real m)) (wavelengthSI st)) (particleSizeSI st)"

definition thetaOf :: "params \<Rightarrow> nat \<Rightarrow> jsnum" where
  "thetaOf st m = js_asin (sinThetaOf st m)"

definition radiusOf :: "params \<Rightarrow> nat \<Rightarrow> jsnum" where
  "radiusOf st m = js_mul (distanceSI st) (js_tan (thetaOf st m))"

definition pixelRadiusOf :: "params \<Rightarrow> jsnum \<Rightarrow> nat \<Rightarrow> jsnum" where
  "pixelRadiusOf st scaleFactor m = js_mul (radiusOf st m) scaleFactor"

text \<open>
  \<open>baseScaleFactor * zoomLevel[0]\<close>; reading index 0 of an empty array gives \<open>undefined\<close>,
  and the product is then \<open>NaN\<close>.
\<close>

definition scaleFactorOf :: "params \<Rightarrow> jsnum" where
  "scaleFactorOf st = (case zoomLevel st of [] \<Rightarrow> NaN | z # zs \<Rightarrow> js_mul (Fin 4000) z)"

definition maxOrder :: nat where
  "maxOrder = 10"

section \<open>Rendering\<close>

text \<open>The calls that stroke and label one ring, up to and after the call of \<open>arc\<close>.\<close>

definition ringSetup :: "call list" where
  "ringSetup = [BeginPath, SetStrokeStyle ''rgba(255, 0, 0, 0.9)'', SetLineWidth (Fin 3)]"

definition ringCalls :: "jsnum \<Rightarrow> jsnum \<Rightarrow> nat \<Rightarrow> jsnum \<Rightarrow> call list" where
  "ringCalls centerX centerY m pixelRadius =
     ringSetup @
     [Arc centerX centerY pixelRadius (Fin 0) (js_mul (Fin pi) (Fin 2)),
      Stroke,
      SetFillStyle ''rgba(255, 255, 255, 0.7)'',
      SetFont ''12px Arial'',
      FillText (''m='' @ show_nat m) (js_add (js_add centerX pixelRadius) (Fin 5)) centerY]"

text \<open>
  The loop over the orders, on the list of the orders still to come. The result is the
  exception raised, if any, and the calls made so far.
\<close>

fun drawOrders ::
  "params \<Rightarrow> jsnum \<Rightarrow> jsnum \<Rightarrow> jsnum \<Rightarrow> nat list \<Rightarrow> call list \<Rightarrow> error option \<times> call list"
where
  "drawOrders st scaleFactor width height [] cs = (None, cs)"
| "drawOrders st scaleFactor width height (m # ms) cs =
     (if js_ge (js_abs (sinThetaOf st m)) (Fin 1)
      then drawOrders st scaleFactor width height ms cs
      else
        if js_le (pixelRadiusOf st scaleFactor m) (js_div (js_min width height) (Fin 2))
        then
          (if arcRaises (js_div width (Fin 2)) (js_div height (Fin 2))
                (pixelRadiusOf st scaleFactor m)
           then (Some IndexSizeError, cs @ ringSetup)
           else drawOrders st scaleFactor width height ms
                  (cs @ ringCalls (js_div width (Fin 2)) (js_div height (Fin 2)) m
                          (pixelRadiusOf st scaleFactor m)))
        else drawOrders st scaleFactor width height ms cs)"

text \<open>Clearing the canvas, the two reference lines and the central spot of radius 5.\<close>

definition background :: "jsnum \<Rightarrow> jsnum \<Rightarrow> call list" where
  "background width height =
     [SetFillStyle ''black'',
      FillRect (Fin 0) (Fin 0) width height,
      SetStrokeStyle ''rgba(255, 255, 255, 0.2)'',
      BeginPath,
      MoveTo (js_div width (Fin 2)) (Fin 0),
      LineTo (js_div width (Fin 2)) height,
      MoveTo (Fin 0) (js_div height (Fin 2)),
      LineTo width (js_div height (Fin 2)),
      Stroke,
      BeginPath,
      SetFillStyle ''rgba(255, 0, 0, 0.8)'',
      Arc (js_div width (Fin 2)) (js_div height (Fin 2)) (Fin 5) (Fin 0)
        (js_mul (Fin pi) (Fin 2)),
      Fill]"

text \<open>
  The component: its parameters, the two canvas references (\<open>None\<close> is a \<open>null\<close>
  reference) and the downloads triggered so far.
\<close>

record download =
  filename :: string
  image :: canvas

record world =
  parameters :: params
  mainCanvas :: "canvas option"
  screenshotCanvas :: "canvas option"
  downloads :: "download list"

text \<open>
  \<open>generatePattern\<close> of the component with zoom and screenshot. It returns the exception
  raised, if any, and the component afterwards.
\<close>

definition generatePattern :: "world \<Rightarrow> error option \<times> world" where
  "generatePattern w =
     (case mainCanvas w of
        None \<Rightarrow> (None, w)
      | Some cv \<Rightarrow>
          if \<not> has2d cv then (None, w)
          else
            let width = Fin (real (cwidth cv));
                height = Fin (real (cheight cv));
                r = drawOrders (parameters w) (scaleFactorOf (parameters w)) width height
                      [1..<Suc maxOrder] (calls cv @ background width height)
            in (fst r, w\<lparr>mainCanvas := Some (cv\<lparr>calls := snd r\<rparr>)\<rparr>))"

text \<open>
  \<open>generatePattern\<close> of \<open>components/LaserDiffraction/index.tsx\<close>, the component without
  zoom: the scale factor is the constant 4000, and a caption follows the loop.
\<close>

definition caption :: "jsnum \<Rightarrow> call list" where
  "caption height =
     [SetFillStyle ''rgba(255, 255, 255, 0.7)'',
      SetFont ''14px Arial'',
      FillText ''Note: Diffraction pattern scale has been enhanced for visibility''
        (Fin 20) (js_add height (Fin (- 20)))]"

definition generatePattern_index :: "world \<Rightarrow> error option \<times> world" where
  "generatePattern_index w =
     (case mainCanvas w of
        None \<Rightarrow> (None, w)
      | Some cv \<Rightarrow>
          if \<not> has2d cv then (None, w)
          else
            let width = Fin (real (cwidth cv));
                height = Fin (real (cheight cv));
                r = drawOrders (parameters w) (Fin 4000) width height
                      [1..<Suc maxOrder] (calls cv @ background width height)
            in if fst r \<noteq> None
               then (fst r, w\<lparr>mainCanvas := Some (cv\<lparr>calls := snd r\<rparr>)\<rparr>)
               else (None, w\<lparr>mainCanvas := Some (cv\<lparr>calls := snd r @ caption height\<rparr>)\<rparr>))"

section \<open>The rings as data\<close>

text \<open>
  The loop decides for each order whether a ring is drawn before it touches the canvas.
  \<open>computeRings\<close> is that decision alone: the orders that pass the loop's two tests, each
  with its pixel radius, in the order of the loop. \<open>drawRings\<close> is the drawing alone.
  Lemma \<open>drawOrders_computed\<close> below shows that the loop is the one after the other.
\<close>

record ring =
  order :: nat
  pixelRadius :: jsnum

fun ringsFrom :: "params \<Rightarrow> jsnum \<Rightarrow> jsnum \<Rightarrow> jsnum \<Rightarrow> nat list \<Rightarrow> ring list" where
  "ringsFrom st scaleFactor width height [] = []"
| "ringsFrom st scaleFactor width height (m # ms) =
     (if js_ge (js_abs (sinThetaOf st m)) (Fin 1)
      then ringsFrom st scaleFactor width height ms
      else
        if js_le (pixelRadiusOf st scaleFactor m) (js_div (js_min width height) (Fin 2))
        then \<lparr>order = m, pixelRadius = pixelRadiusOf st scaleFactor m\<rparr>
               # ringsFrom st scaleFactor width height ms
        else ringsFrom st scaleFactor width height ms)"

definition computeRings :: "params \<Rightarrow> nat \<Rightarrow> nat \<Rightarrow> ring list" where
  "computeRings st canvasWidth canvasHeight =
     ringsFrom st (scaleFactorOf st) (Fin (real canvasWidth)) (Fin (real canvasHeight))
       [1..<Suc maxOrder]"

fun drawRings :: "jsnum \<Rightarrow> jsnum \<Rightarrow> ring list \<Rightarrow> call list \<Rightarrow> error option \<times> call list" where
  "drawRings centerX centerY [] cs = (None, cs)"
| "drawRings centerX centerY (r # rs) cs =
     (if arcRaises centerX centerY (pixelRadius r) then (Some IndexSizeError, cs @ ringSetup)
      else drawRings centerX centerY rs
             (cs @ ringCalls centerX centerY (order r) (pixelRadius r)))"

section \<open>The screenshot\<close>

text \<open>\<open>toUpperCase\<close> of one ASCII character.\<close>

definition toUpperChar :: "char \<Rightarrow> char" where
  "toUpperChar c =
     (if 97 \<le> (of_char c :: nat) \<and> (of_char c :: nat) \<le> 122
      then char_of ((of_char c :: nat) - 32) else c)"

definition materialName :: "params \<Rightarrow> string" where
  "materialName st =
     (if selectedMaterial st = ''custom'' then ''Custom''
      else case selectedMaterial st of [] \<Rightarrow> [] | c # r \<Rightarrow> toUpperChar c # r)"

text \<open>
  \<open>toFixed(1)\<close>: the nearest multiple of one tenth, the larger one at a tie, printed with
  one decimal. (From \<open>10^21\<close> on the language prints an exponent instead; the zoom slider
  ranges over 0.1 to 5.)
\<close>

definition fixed1 :: "real \<Rightarrow> string" where
  "fixed1 x =
     (let n = nat \<lfloor>x * 10 + 1 / 2\<rfloor> in show_nat (n div 10) @ ''.'' @ show_nat (n mod 10))"

fun toFixed1 :: "jsnum \<Rightarrow> string" where
  "toFixed1 NaN = ''NaN''"
| "toFixed1 PInf = ''Infinity''"
| "toFixed1 NInf = ''-Infinity''"
| "toFixed1 (Fin x) = (if x < 0 then ''-'' @ fixed1 (- x) else fixed1 x)"

text \<open>What \<open>new Date()\<close> yields when the screenshot is taken.\<close>

record clock =
  localeDate :: string
  localeTime :: string
  timeMs :: nat

text \<open>The parameter lines drawn below the pattern; the unit of the particle size is the
  two bytes of the Greek letter mu followed by \<open>m\<close>.\<close>

definition parameterLines :: "params \<Rightarrow> real \<Rightarrow> call list" where
  "parameterLines st yPos =
     [SetFillStyle ''#333'',
      SetFont ''14px Arial'',
      FillText (''Material: '' @ materialName st) (Fin 10) (Fin yPos),
      FillText (''Wavelength: '' @ wavelength st @ '' nm'') (Fin (10 + 180)) (Fin yPos),
      FillText (''Particle Size: '' @ particleSize st @ '' '' @ [CHR 0xCE, CHR 0xBC] @ ''m'')
        (Fin 10) (Fin (yPos + 25)),
      FillText (''Screen Distance: '' @ distance st @ '' cm'') (Fin (10 + 180))
        (Fin (yPos + 25))]"

text \<open>
  \<open>takeScreenshot\<close>. \<open>drawImage\<close> raises \<open>InvalidStateError\<close> for a source canvas of
  width or height 0, and \<open>zoomLevel[0].toFixed\<close> raises \<open>TypeError\<close> on an empty array. The
  image of a download is the screenshot canvas at the moment of \<open>toDataURL\<close>.
\<close>

definition takeScreenshot :: "clock \<Rightarrow> world \<Rightarrow> error option \<times> world" where
  "takeScreenshot clk w =
     (case mainCanvas w of
        None \<Rightarrow> (None, w)
      | Some mc \<Rightarrow>
         (case screenshotCanvas w of
            None \<Rightarrow> (None, w)
          | Some sc \<Rightarrow>
              if \<not> has2d sc then (None, w)
              else
                let sw = cwidth mc;
                    sh = cheight mc + 100;
                    cs1 = calls sc @
                      [SetWidth sw, SetHeight sh, SetFillStyle ''#f5f5f5'',
                       FillRect (Fin 0) (Fin 0) (Fin (real sw)) (Fin (real sh))];
                    sc1 = sc\<lparr>cwidth := sw, cheight := sh, calls := cs1\<rparr>
                in
                  if cwidth mc = 0 \<or> cheight mc = 0
                  then (Some InvalidStateError, w\<lparr>screenshotCanvas := Some sc1\<rparr>)
                  else
                    let yPos = real (cheight mc) + 20;
                        cs2 = cs1 @
                          [DrawImage (calls mc) (cwidth mc) (cheight mc) (Fin 0) (Fin 0)] @
                          parameterLines (parameters w) yPos
                    in
                      (case zoomLevel (parameters w) of
                         [] \<Rightarrow>
                           (Some TypeError, w\<lparr>screenshotCanvas := Some (sc1\<lparr>calls := cs2\<rparr>)\<rparr>)
                       | z # zs \<Rightarrow>
                           let sc3 = sc1\<lparr>calls := cs2 @
                                 [FillText (''Zoom Level: '' @ toFixed1 z @ ''x'') (Fin 10)
                                    (Fin (yPos + 25 + 25)),
                                  FillText
                                    (''Generated: '' @ localeDate clk @ '' '' @ localeTime clk)
                                    (Fin (real sw - 220)) (Fin (yPos + 25 + 25))]\<rparr>
                           in (None,
                               w\<lparr>screenshotCanvas := Some sc3,
                                 downloads := downloads w @
                                   [\<lparr>filename =
                                       ''laser-diffraction-'' @ show_nat (timeMs clk) @ ''.png'',
                                     image = sc3\<rparr>]\<rparr>))))"

section \<open>Reference inputs and auxiliary notions\<close>

text \<open>The parameters once the component has mounted and the effect has run: lycopodium, 30.\<close>

definition mounted :: params where
  "mounted = materialEffect initialParams"

text \<open>Then \<open>Custom\<close> selected and \<open>12\<close> typed into the particle-size field.\<close>

definition typed12 :: params where
  "typed12 = editParticleSize ''12'' (changeMaterial ''custom'' mounted)"

text \<open>The visible canvas and the hidden screenshot canvas of the page, both untouched.\<close>

definition canvas800x400 :: canvas where
  "canvas800x400 = \<lparr>cwidth = 800, cheight = 400, has2d = True, calls = []\<rparr>"

definition canvas800x500 :: canvas where
  "canvas800x500 = \<lparr>cwidth = 800, cheight = 500, has2d = True, calls = []\<rparr>"

text \<open>The component with given parameters, freshly on the page.\<close>

definition page :: "params \<Rightarrow> world" where
  "page st =
     \<lparr>parameters = st, mainCanvas = Some canvas800x400,
      screenshotCanvas = Some canvas800x500, downloads = []\<rparr>"

text \<open>The wavelength field cleared; the distance field cleared.\<close>

definition blankWavelength :: params where
  "blankWavelength = mounted\<lparr>wavelength := []\<rparr>"

definition blankDistance :: params where
  "blankDistance = mounted\<lparr>distance := []\<rparr>"

text \<open>A canvas whose \<open>getContext('2d')\<close> yields \<open>null\<close>.\<close>

definition noContext :: canvas where
  "noContext = \<lparr>cwidth = 800, cheight = 400, has2d = False, calls = []\<rparr>"

text \<open>A reading of the clock.\<close>

definition noon :: clock where
  "noon = \<lparr>localeDate = ''11/2/2026'', localeTime = ''12:00:00 PM'', timeMs = 1793620800000\<rparr>"


text \<open>The two tests an order passes to be drawn.\<close>

definition ringDrawn :: "params \<Rightarrow> jsnum \<Rightarrow> jsnum \<Rightarrow> jsnum \<Rightarrow> nat \<Rightarrow> bool" where
  "ringDrawn st scaleFactor width height m =
     (\<not> js_ge (js_abs (sinThetaOf st m)) (Fin 1) \<and>
      js_le (pixelRadiusOf st scaleFactor m) (js_div (js_min width height) (Fin 2)))"

section \<open>Evaluation lemmas\<close>

lemma show_nat_30: "show_nat 30 = ''30''"
  by (simp add: show_nat.simps)

lemma parseFloat_empty: "parseFloat [] = NaN"
  by (simp add: parseFloat_def)

lemmas parseFloat_eval =
  parseFloat_def isDigit_def digitsVal_def digitVal_def isStrWhiteSpace_def exponentPart_def

lemma parseFloat_30: "parseFloat ''30'' = Fin 30"
  by (simp add: parseFloat_eval)

lemma parseFloat_12: "parseFloat ''12'' = Fin 12"
  by (simp add: parseFloat_eval)

lemma parseFloat_650: "parseFloat ''650'' = Fin 650"
  by (simp add: parseFloat_eval)

lemma parseFloat_100: "parseFloat ''100'' = Fin 100"
  by (simp add: parseFloat_eval)

section \<open>The material preset\<close>

lemma to_lycopodium:
  assumes "selectedMaterial st \<noteq> ''lycopodium''"
  shows "changeMaterial ''lycopodium'' st =
           st\<lparr>selectedMaterial := ''lycopodium'', particleSize := ''30''\<rparr>"
  using assms
  by (simp add: changeMaterial_def materialEffect_def materialsData_def truthy_def
      presetText_def show_nat_30)

lemma to_custom:
  "changeMaterial ''custom'' st = st\<lparr>selectedMaterial := ''custom''\<rparr>"
  by (simp add: changeMaterial_def materialEffect_def)

lemma mounted_eq:
  "mounted = \<lparr>wavelength = ''650'', distance = ''100'', particleSize = ''30'',
              selectedMaterial = ''lycopodium'', zoomLevel = [Fin 1]\<rparr>"
  by (simp add: mounted_def materialEffect_def initialParams_def materialsData_def truthy_def
      presetText_def show_nat_30)

lemma typed12_eq:
  "typed12 = \<lparr>wavelength = ''650'', distance = ''100'', particleSize = ''12'',
              selectedMaterial = ''custom'', zoomLevel = [Fin 1]\<rparr>"
  by (simp add: typed12_def to_custom editParticleSize_def particleSizeDisabled_def mounted_eq)

text \<open>
  Claim C1, as stated: after switching from custom to lycopodium and back, the field holds
  again the value the user had typed. It does not: with \<open>12\<close> typed, the field holds \<open>30\<close>
  after the round trip, and the two texts parse to different numbers.
\<close>

theorem typed_size_not_restored:
  "particleSize typed12 = ''12'' \<and>
   particleSize (changeMaterial ''custom'' (changeMaterial ''lycopodium'' typed12)) = ''30'' \<and>
   parseFloat (particleSize (changeMaterial ''custom'' (changeMaterial ''lycopodium'' typed12)))
     \<noteq> parseFloat (particleSize typed12)"
  by (simp add: typed12_eq to_lycopodium to_custom parseFloat_30 parseFloat_12)

text \<open>
  Claim C1, amended: switching the material from custom to lycopodium sets the particle
  size to 30 and disables the field; switching back to custom enables the field again and
  keeps the value the field then holds, the preset 30, whatever had been typed before; the
  field accepts typing again. No other parameter changes.
\<close>

theorem material_switch_keeps_preset:
  assumes "selectedMaterial st = ''custom''"
  shows "particleSize (changeMaterial ''lycopodium'' st) = ''30'' \<and>
         parseFloat (particleSize (changeMaterial ''lycopodium'' st)) = Fin 30 \<and>
         particleSizeDisabled (changeMaterial ''lycopodium'' st) \<and>
         editParticleSize v (changeMaterial ''lycopodium'' st) = changeMaterial ''lycopodium'' st \<and>
         \<not> particleSizeDisabled (changeMaterial ''custom'' (changeMaterial ''lycopodium'' st)) \<and>
         changeMaterial ''custom'' (changeMaterial ''lycopodium'' st) = st\<lparr>particleSize := ''30''\<rparr> \<and>
         particleSize (editParticleSize v
           (changeMaterial ''custom'' (changeMaterial ''lycopodium'' st))) = v"
  using assms
  by (simp add: to_lycopodium to_custom particleSizeDisabled_def editParticleSize_def
      parseFloat_30)

theorem material_switch_keeps_preset_witness:
  "selectedMaterial typed12 = ''custom'' \<and>
   particleSize (changeMaterial ''lycopodium'' typed12) = ''30'' \<and>
   particleSizeDisabled (changeMaterial ''lycopodium'' typed12) \<and>
   \<not> particleSizeDisabled (changeMaterial ''custom'' (changeMaterial ''lycopodium'' typed12)) \<and>
   changeMaterial ''custom'' (changeMaterial ''lycopodium'' typed12) =
     \<lparr>wavelength = ''650'', distance = ''100'', particleSize = ''30'',
      selectedMaterial = ''custom'', zoomLevel = [Fin 1]\<rparr>"
proof -
  have h: "selectedMaterial typed12 = ''custom''"
    by (simp add: typed12_eq)
  have e: "typed12\<lparr>particleSize := ''30''\<rparr> =
      \<lparr>wavelength = ''650'', distance = ''100'', particleSize = ''30'',
       selectedMaterial = ''custom'', zoomLevel = [Fin 1]\<rparr>"
    by (simp add: typed12_eq)
  show ?thesis
    using h e material_switch_keeps_preset [OF h, of "''7''"]
    by (simp add: particleSizeDisabled_def)
qed

section \<open>The loop and the rings\<close>

text \<open>The loop draws exactly the rings of \<open>ringsFrom\<close>, in their order.\<close>

lemma drawOrders_computed:
  "drawOrders st sf w h ms cs =
     drawRings (js_div w (Fin 2)) (js_div h (Fin 2)) (ringsFrom st sf w h ms) cs"
  by (induction ms arbitrary: cs) simp_all

text \<open>
  What the drawing leaves on the canvas: every ring when it returns, and otherwise the rings
  before the one whose \<open>arc\<close> raised, followed by that ring's first three calls.
\<close>

lemma drawRings_returned:
  assumes "fst (drawRings cx cy rs cs) = None"
  shows "snd (drawRings cx cy rs cs) =
           cs @ concat (map (\<lambda>r. ringCalls cx cy (order r) (pixelRadius r)) rs)"
  using assms by (induction rs arbitrary: cs) (simp_all split: if_splits)

lemma drawRings_prefix:
  "\<exists>k. snd (drawRings cx cy rs cs) =
       cs @ concat (map (\<lambda>r. ringCalls cx cy (order r) (pixelRadius r)) (take k rs))
          @ (if fst (drawRings cx cy rs cs) = None then [] else ringSetup)"
proof (induction rs arbitrary: cs)
  case Nil
  show ?case by simp
next
  case (Cons r rs)
  let ?f = "\<lambda>r. ringCalls cx cy (order r) (pixelRadius r)"
  show ?case
  proof (cases "arcRaises cx cy (pixelRadius r)")
    case True
    have "snd (drawRings cx cy (r # rs) cs) =
        cs @ concat (map ?f (take 0 (r # rs)))
           @ (if fst (drawRings cx cy (r # rs) cs) = None then [] else ringSetup)"
      using True by simp
    then show ?thesis ..
  next
    case False
    from Cons.IH [of "cs @ ?f r"] obtain k where
      k: "snd (drawRings cx cy rs (cs @ ?f r)) =
        (cs @ ?f r) @ concat (map ?f (take k rs))
        @ (if fst (drawRings cx cy rs (cs @ ?f r)) = None then [] else ringSetup)"
      by blast
    have d: "drawRings cx cy (r # rs) cs = drawRings cx cy rs (cs @ ?f r)"
      using False by simp
    have "snd (drawRings cx cy (r # rs) cs) =
        cs @ concat (map ?f (take (Suc k) (r # rs)))
           @ (if fst (drawRings cx cy (r # rs) cs) = None then [] else ringSetup)"
      unfolding d k by simp
    then show ?thesis ..
  qed
qed

lemma generatePattern_rings:
  assumes "mainCanvas w = Some cv" "has2d cv"
  shows "generatePattern w =
           (fst (drawRings (Fin (real (cwidth cv) / 2)) (Fin (real (cheight cv) / 2))
                   (computeRings (parameters w) (cwidth cv) (cheight cv))
                   (calls cv @ background (Fin (real (cwidth cv))) (Fin (real (cheight cv))))),
            w\<lparr>mainCanvas := Some (cv\<lparr>calls :=
                snd (drawRings (Fin (real (cwidth cv) / 2)) (Fin (real (cheight cv) / 2))
                   (computeRings (parameters w) (cwidth cv) (cheight cv))
                   (calls cv @ background (Fin (real (cwidth cv))) (Fin (real (cheight cv)))))\<rparr>)\<rparr>)"
  using assms
  by (simp add: generatePattern_def computeRings_def drawOrders_computed Let_def del: upt_Suc)

lemma ringsFrom_filter:
  "ringsFrom st sf w h ms =
     map (\<lambda>m. \<lparr>order = m, pixelRadius = pixelRadiusOf st sf m\<rparr>)
       (filter (ringDrawn st sf w h) ms)"
  by (induction ms) (simp_all add: ringDrawn_def)

lemma orders_ringsFrom:
  "map order (ringsFrom st sf w h ms) = filter (ringDrawn st sf w h) ms"
  by (simp add: ringsFrom_filter comp_def)

lemma half_min: "js_div (js_min (Fin a) (Fin b)) (Fin 2) = Fin (min a b / 2)"
  by (simp add: js_min_def min_def)

lemma orders_upto: "[1..<Suc maxOrder] = [1, 2, 3, 4, 5, 6, 7, 8, 9, 10]"
  by (simp add: maxOrder_def upt_rec)

text \<open>
  Claim C2: an order \<open>m\<close> whose \<open>sinTheta\<close>, as the program computes it, has absolute value
  at least 1 is not among the rings emitted, whatever the parameters and the canvas size;
  in particular for the orders 1 to 10. Nothing is raised for it: \<open>computeRings\<close> is total.
\<close>

theorem beyond_90_degrees_skipped:
  assumes "js_ge (js_abs (sinThetaOf st m)) (Fin 1)"
  shows "m \<notin> order ` set (computeRings st canvasWidth canvasHeight)"
proof -
  have "set (map order (computeRings st canvasWidth canvasHeight)) \<subseteq>
      {k. ringDrawn st (scaleFactorOf st) (Fin (real canvasWidth)) (Fin (real canvasHeight)) k}"
    unfolding computeRings_def orders_ringsFrom by auto
  with assms show ?thesis by (auto simp: ringDrawn_def)
qed

theorem beyond_90_degrees_skipped_witness:
  "js_ge (js_abs (sinThetaOf
      \<lparr>wavelength = ''650'', distance = ''100'', particleSize = ''1'',
       selectedMaterial = ''custom'', zoomLevel = [Fin 1]\<rparr> 2)) (Fin 1) \<and>
   2 \<notin> order ` set (computeRings
      \<lparr>wavelength = ''650'', distance = ''100'', particleSize = ''1'',
       selectedMaterial = ''custom'', zoomLevel = [Fin 1]\<rparr> 800 400)"
proof -
  have h: "js_ge (js_abs (sinThetaOf
      \<lparr>wavelength = ''650'', distance = ''100'', particleSize = ''1'',
       selectedMaterial = ''custom'', zoomLevel = [Fin 1]\<rparr> 2)) (Fin 1)"
    by (simp add: sinThetaOf_def wavelengthSI_def particleSizeSI_def parseFloat_eval)
  from h beyond_90_degrees_skipped [OF h, of 800 400] show ?thesis by blast
qed

section \<open>The tangent of an arc sine\<close>

lemma tan_arcsin:
  assumes "- 1 < x" "x < 1"
  shows "tan (arcsin x) = x / sqrt (1 - x\<^sup>2)"
  using assms by (simp add: tan_def cos_arcsin)

lemma tan_arcsin_le:
  assumes "0 \<le> x" "x < 1" "0 \<le> b" "x\<^sup>2 \<le> b\<^sup>2 * (1 - x\<^sup>2)"
  shows "tan (arcsin x) \<le> b"
proof -
  have p: "0 < 1 - x\<^sup>2"
    using assms(1,2) by (simp add: abs_square_less_1)
  have "sqrt (x\<^sup>2) \<le> sqrt (b\<^sup>2 * (1 - x\<^sup>2))"
    using assms(4) by (rule real_sqrt_le_mono)
  then have "x \<le> b * sqrt (1 - x\<^sup>2)"
    using assms(1,3) by (simp add: real_sqrt_mult)
  then have "x / sqrt (1 - x\<^sup>2) \<le> b"
    using p by (simp add: pos_divide_le_eq)
  then show ?thesis
    using assms(1,2) by (simp add: tan_arcsin)
qed

lemma tan_arcsin_ge:
  assumes "0 \<le> x" "x < 1" "0 \<le> b" "b\<^sup>2 * (1 - x\<^sup>2) \<le> x\<^sup>2"
  shows "b \<le> tan (arcsin x)"
proof -
  have p: "0 < 1 - x\<^sup>2"
    using assms(1,2) by (simp add: abs_square_less_1)
  have "sqrt (b\<^sup>2 * (1 - x\<^sup>2)) \<le> sqrt (x\<^sup>2)"
    using assms(4) by (rule real_sqrt_le_mono)
  then have "b * sqrt (1 - x\<^sup>2) \<le> x"
    using assms(1,3) by (simp add: real_sqrt_mult)
  then have "b \<le> x / sqrt (1 - x\<^sup>2)"
    using p by (simp add: pos_le_divide_eq)
  then show ?thesis
    using assms(1,2) by (simp add: tan_arcsin)
qed

lemma tan_arcsin_mono:
  assumes "0 \<le> x" "x \<le> y" "y < 1"
  shows "tan (arcsin x) \<le> tan (arcsin y)"
proof -
  have "- (pi / 2) < arcsin x"
    using assms by (intro arcsin_lt_bounded [THEN conjunct1]) auto
  moreover have "arcsin x \<le> arcsin y"
    using assms by (intro arcsin_le_arcsin) auto
  moreover have "arcsin y < pi / 2"
    using assms by (intro arcsin_lt_bounded [THEN conjunct2]) auto
  ultimately show ?thesis by (rule tan_mono_le)
qed

section \<open>The formula on finite inputs\<close>

lemma sinThetaOf_fin:
  assumes "parseFloat (wavelength st) = Fin wl" "parseFloat (particleSize st) = Fin p" "p \<noteq> 0"
  shows "sinThetaOf st m = Fin (real m * (wl / 10 ^ 9) / (p / 10 ^ 6))"
  using assms by (simp add: sinThetaOf_def wavelengthSI_def particleSizeSI_def)

lemma radiusOf_fin:
  assumes "sinThetaOf st m = Fin x" "- 1 \<le> x" "x \<le> 1" "parseFloat (distance st) = Fin d"
  shows "radiusOf st m = Fin (d / 10 ^ 2 * tan (arcsin x))"
  using assms by (simp add: radiusOf_def thetaOf_def distanceSI_def)

section \<open>The default parameters\<close>

lemma sinTheta_mounted: "sinThetaOf mounted m = Fin (real m * 13 / 600)"
  by (simp add: mounted_eq sinThetaOf_fin [where wl = 650 and p = 30] parseFloat_650 parseFloat_30)

lemma scale_mounted: "scaleFactorOf mounted = Fin 4000"
  by (simp add: mounted_eq scaleFactorOf_def)

lemma radius_mounted:
  assumes "m \<le> 46"
  shows "radiusOf mounted m = Fin (tan (arcsin (real m * 13 / 600)))"
proof -
  have "real m \<le> 46" using assms by simp
  then have "- 1 \<le> real m * 13 / 600" "real m * 13 / 600 \<le> 1" by simp_all
  from radiusOf_fin [OF sinTheta_mounted this, of 100]
  show ?thesis by (simp add: mounted_eq parseFloat_100)
qed

lemma pixelRadius_mounted:
  assumes "m \<le> 46"
  shows "pixelRadiusOf mounted (Fin 4000) m = Fin (tan (arcsin (real m * 13 / 600)) * 4000)"
  using assms by (simp add: pixelRadiusOf_def radius_mounted)

lemma angle_test_mounted: "m \<le> 46 \<Longrightarrow> \<not> js_ge (js_abs (sinThetaOf mounted m)) (Fin 1)"
proof -
  assume "m \<le> 46"
  then have "real m \<le> 46" by simp
  then show ?thesis by (simp add: sinTheta_mounted)
qed

lemma tan_order1_ge: "13 / 600 \<le> tan (arcsin (13 / 600 :: real))"
  by (rule tan_arcsin_ge) (simp_all add: power2_eq_square)

lemma tan_order1_upper: "tan (arcsin (13 / 600 :: real)) \<le> 2168 / 100000"
  by (rule tan_arcsin_le) (simp_all add: power2_eq_square)


lemma tan_order2_upper: "tan (arcsin (13 / 300 :: real)) \<le> 1 / 20"
  by (rule tan_arcsin_le) (simp_all add: power2_eq_square)

lemma tan_order3_lower: "m \<ge> 3 \<Longrightarrow> m \<le> 10 \<Longrightarrow> 1 / 20 < tan (arcsin (real m * 13 / 600))"
proof -
  assume m: "m \<ge> 3" "m \<le> 10"
  then have r: "3 \<le> real m" "real m \<le> 10" by simp_all
  have "13 / 200 \<le> tan (arcsin (13 / 200 :: real))"
    by (rule tan_arcsin_ge) (simp_all add: power2_eq_square)
  also have "\<dots> \<le> tan (arcsin (real m * 13 / 600))"
    using r by (intro tan_arcsin_mono) simp_all
  finally show ?thesis by simp
qed



lemma ringDrawn_mounted:
  assumes "m \<le> 10"
  shows "ringDrawn mounted (Fin 4000) (Fin 800) (Fin 400) m \<longleftrightarrow>
           tan (arcsin (real m * 13 / 600)) \<le> 1 / 20"
proof -
  from assms have "m \<le> 46" by simp
  then show ?thesis
    by (simp add: ringDrawn_def angle_test_mounted pixelRadius_mounted half_min js_le_def
        mult.commute)
qed

lemma drawn_mounted:
  "filter (ringDrawn mounted (Fin 4000) (Fin 800) (Fin 400)) [1..<Suc maxOrder] = [1, 2]"
proof -
  have a: "ringDrawn mounted (Fin 4000) (Fin 800) (Fin 400) 1"
    using tan_order1_upper by (simp add: ringDrawn_mounted)
  have b: "ringDrawn mounted (Fin 4000) (Fin 800) (Fin 400) 2"
    using tan_order2_upper by (simp add: ringDrawn_mounted)
  have c: "\<not> ringDrawn mounted (Fin 4000) (Fin 800) (Fin 400) m" if "3 \<le> m" "m \<le> 10" for m
    using tan_order3_lower [OF that] that by (simp add: ringDrawn_mounted)
  show ?thesis
    unfolding orders_upto using a b by (simp add: c)
qed

lemma rings_mounted:
  "computeRings mounted 800 400 =
     [\<lparr>order = 1, pixelRadius = pixelRadiusOf mounted (Fin 4000) 1\<rparr>,
      \<lparr>order = 2, pixelRadius = pixelRadiusOf mounted (Fin 4000) 2\<rparr>]"
  using drawn_mounted by (simp add: computeRings_def ringsFrom_filter scale_mounted del: upt_Suc)



section \<open>The ring set\<close>

text \<open>
  Claim C10: for all parameters and every canvas size, at most 10 rings are emitted; each
  has an order between 1 and 10 and a pixel radius that the program's comparison finds at
  most half the smaller canvas side; and the orders increase strictly in emission order.
\<close>

theorem ring_set_bounds:
  "length (computeRings st canvasWidth canvasHeight) \<le> 10 \<and>
   (\<forall>r \<in> set (computeRings st canvasWidth canvasHeight).
      1 \<le> order r \<and> order r \<le> 10 \<and>
      js_le (pixelRadius r) (Fin (real (min canvasWidth canvasHeight) / 2))) \<and>
   sorted_wrt (<) (map order (computeRings st canvasWidth canvasHeight))"
proof -
  let ?P = "ringDrawn st (scaleFactorOf st) (Fin (real canvasWidth)) (Fin (real canvasHeight))"
  let ?rs = "computeRings st canvasWidth canvasHeight"
  have o: "map order ?rs = filter ?P [1..<Suc maxOrder]"
    by (simp add: computeRings_def orders_ringsFrom)
  have "length (map order ?rs) \<le> length [1..<Suc maxOrder]"
    unfolding o by (rule length_filter_le)
  then have l: "length ?rs \<le> 10"
    by (simp add: maxOrder_def)
  have s: "sorted_wrt (<) (map order ?rs)"
    unfolding o by (rule sorted_wrt_filter) (rule sorted_wrt_upt)
  have b: "1 \<le> order r \<and> order r \<le> 10 \<and>
      js_le (pixelRadius r) (Fin (real (min canvasWidth canvasHeight) / 2))"
    if "r \<in> set ?rs" for r
  proof -
    from that obtain m where m: "m \<in> set [1..<Suc maxOrder]" "?P m"
      and r: "r = \<lparr>order = m, pixelRadius = pixelRadiusOf st (scaleFactorOf st) m\<rparr>"
      by (auto simp: computeRings_def ringsFrom_filter)
    from m(2) have "js_le (pixelRadius r) (Fin (min (real canvasWidth) (real canvasHeight) / 2))"
      by (simp add: ringDrawn_def half_min r)
    moreover have "min (real canvasWidth) (real canvasHeight) = real (min canvasWidth canvasHeight)"
      by simp
    ultimately show ?thesis using m(1) by (simp add: r maxOrder_def)
  qed
  from l s b show ?thesis by blast
qed

theorem ring_set_bounds_witness:
  "computeRings mounted 800 400 \<noteq> [] \<and>
   length (computeRings mounted 800 400) \<le> 10 \<and>
   list_all (\<lambda>r. 1 \<le> order r \<and> order r \<le> 10 \<and> js_le (pixelRadius r) (Fin 200))
     (computeRings mounted 800 400) \<and>
   sorted_wrt (<) (map order (computeRings mounted 800 400))"
proof -
  have n: "computeRings mounted 800 400 \<noteq> []"
    by (simp add: rings_mounted)
  from n ring_set_bounds [of mounted 800 400] show ?thesis
    by (simp add: list_all_iff)
qed

section \<open>Zoom\<close>

lemma js_mul_NaN_right: "js_mul x NaN = NaN"
  by (cases x) simp_all








section \<open>Monotonicity in the order\<close>

lemma pixelRadius_increasing:
  assumes wl: "parseFloat (wavelength st) = Fin wl" "0 < wl"
    and d: "parseFloat (distance st) = Fin d" "0 < d"
    and p: "parseFloat (particleSize st) = Fin p" "0 < p"
    and z: "zoomLevel st = Fin z # zs" "0 < z"
    and n: "\<not> js_ge (js_abs (sinThetaOf st n)) (Fin 1)"
    and mn: "m \<le> n"
  shows "js_le (pixelRadiusOf st (scaleFactorOf st) m) (pixelRadiusOf st (scaleFactorOf st) n)"
proof -
  define c where "c = (wl / 10 ^ 9) / (p / 10 ^ 6)"
  have c: "0 < c"
    using wl(2) p(2) by (simp add: c_def)
  have sx: "sinThetaOf st k = Fin (real k * c)" for k
    using sinThetaOf_fin [OF wl(1) p(1), of k] p(2) by (simp add: c_def)
  have x0: "0 \<le> real k * c" for k
    using c by simp
  have xn: "real n * c < 1"
    using n x0 [of n] by (simp add: sx)
  have xm: "real m * c \<le> real n * c"
    using mn c by simp
  have r: "radiusOf st k = Fin (d / 10 ^ 2 * tan (arcsin (real k * c)))" if "real k * c < 1" for k
    using radiusOf_fin [OF sx _ _ d(1), of k] x0 [of k] that by simp
  have s: "scaleFactorOf st = Fin (4000 * z)"
    by (simp add: scaleFactorOf_def z(1))
  have t: "tan (arcsin (real m * c)) \<le> tan (arcsin (real n * c))"
    using x0 xm xn by (rule tan_arcsin_mono)
  have "d / 10 ^ 2 * tan (arcsin (real m * c)) * (4000 * z)
      \<le> d / 10 ^ 2 * tan (arcsin (real n * c)) * (4000 * z)"
    using t d(2) z(2) by (simp add: mult_le_cancel_left_pos)
  moreover have "real m * c < 1"
    using xm xn by simp
  ultimately show ?thesis
    using xn by (simp add: pixelRadiusOf_def r s js_le_def)
qed

text \<open>
  Claim C6: for a positive finite wavelength, distance, particle size and zoom, the pixel
  radius does not decrease from an order \<open>m\<close> to a larger order \<open>n\<close> whose angle is
  defined (the skip test of the angle fails for \<open>n\<close>, hence for \<open>m\<close>); so the pixel radii
  of the emitted rings are in non-decreasing order.
\<close>

theorem radius_monotone_in_order:
  assumes "parseFloat (wavelength st) = Fin wl" "0 < wl"
    and "parseFloat (distance st) = Fin d" "0 < d"
    and "parseFloat (particleSize st) = Fin p" "0 < p"
    and "zoomLevel st = Fin z # zs" "0 < z"
  shows "(\<forall>m n. m \<le> n \<and> \<not> js_ge (js_abs (sinThetaOf st n)) (Fin 1) \<longrightarrow>
            js_le (pixelRadiusOf st (scaleFactorOf st) m)
                  (pixelRadiusOf st (scaleFactorOf st) n)) \<and>
         sorted_wrt (\<lambda>a b. js_le (pixelRadius a) (pixelRadius b))
           (computeRings st canvasWidth canvasHeight)"
proof -
  let ?P = "ringDrawn st (scaleFactorOf st) (Fin (real canvasWidth)) (Fin (real canvasHeight))"
  let ?pr = "pixelRadiusOf st (scaleFactorOf st)"
  have mono: "js_le (?pr m) (?pr n)"
    if "m \<le> n" "\<not> js_ge (js_abs (sinThetaOf st n)) (Fin 1)" for m n
    using pixelRadius_increasing [OF assms that(2) that(1)] .
  have "sorted_wrt (<) (filter ?P [1..<Suc maxOrder])"
    by (rule sorted_wrt_filter) (rule sorted_wrt_upt)
  then have "sorted_wrt (\<lambda>m n. js_le (?pr m) (?pr n)) (filter ?P [1..<Suc maxOrder])"
  proof (rule sorted_wrt_mono_rel [rotated])
    fix m n
    assume "m \<in> set (filter ?P [1..<Suc maxOrder])" "n \<in> set (filter ?P [1..<Suc maxOrder])"
      and "m < n"
    then show "js_le (?pr m) (?pr n)"
      by (intro mono) (simp_all add: ringDrawn_def del: upt_Suc)
  qed
  then have "sorted_wrt (\<lambda>a b. js_le (pixelRadius a) (pixelRadius b))
      (computeRings st canvasWidth canvasHeight)"
    by (simp add: computeRings_def ringsFrom_filter sorted_wrt_map del: upt_Suc)
  with mono show ?thesis by blast
qed

theorem radius_monotone_in_order_witness:
  "parseFloat (wavelength mounted) = Fin 650 \<and> (0::real) < 650 \<and>
   parseFloat (distance mounted) = Fin 100 \<and> (0::real) < 100 \<and>
   parseFloat (particleSize mounted) = Fin 30 \<and> (0::real) < 30 \<and>
   zoomLevel mounted = Fin 1 # [] \<and> (0::real) < 1 \<and>
   \<not> js_ge (js_abs (sinThetaOf mounted 3)) (Fin 1) \<and>
   js_le (pixelRadiusOf mounted (scaleFactorOf mounted) 1)
         (pixelRadiusOf mounted (scaleFactorOf mounted) 2) \<and>
   js_le (pixelRadiusOf mounted (scaleFactorOf mounted) 2)
         (pixelRadiusOf mounted (scaleFactorOf mounted) 3) \<and>
   computeRings mounted 800 400 \<noteq> [] \<and>
   sorted_wrt (\<lambda>a b. js_le (pixelRadius a) (pixelRadius b)) (computeRings mounted 800 400)"
proof -
  have h: "parseFloat (wavelength mounted) = Fin 650" "(0::real) < 650"
    "parseFloat (distance mounted) = Fin 100" "(0::real) < 100"
    "parseFloat (particleSize mounted) = Fin 30" "(0::real) < 30"
    "zoomLevel mounted = Fin 1 # []" "(0::real) < 1"
    by (simp_all add: mounted_eq parseFloat_650 parseFloat_100 parseFloat_30)
  have a: "\<not> js_ge (js_abs (sinThetaOf mounted k)) (Fin 1)" if "k \<le> 10" for k
    using that by (intro angle_test_mounted) simp
  have n: "computeRings mounted 800 400 \<noteq> []"
    by (simp add: rings_mounted)
  note t = radius_monotone_in_order [OF h, of 800 400]
  from t have mono: "js_le (pixelRadiusOf mounted (scaleFactorOf mounted) i)
      (pixelRadiusOf mounted (scaleFactorOf mounted) j)"
    if "i \<le> j" "\<not> js_ge (js_abs (sinThetaOf mounted j)) (Fin 1)" for i j
    using that by blast
  have "js_le (pixelRadiusOf mounted (scaleFactorOf mounted) 1)
         (pixelRadiusOf mounted (scaleFactorOf mounted) 2)"
    by (rule mono) (simp_all add: a)
  moreover have "js_le (pixelRadiusOf mounted (scaleFactorOf mounted) 2)
         (pixelRadiusOf mounted (scaleFactorOf mounted) 3)"
    by (rule mono) (simp_all add: a)
  moreover from t have "sorted_wrt (\<lambda>a b. js_le (pixelRadius a) (pixelRadius b))
      (computeRings mounted 800 400)"
    by (rule conjunct2)
  ultimately show ?thesis
    using h a [of 3] n by simp
qed

section \<open>Malformed input\<close>

lemma js_div_NaN_right: "js_div x NaN = NaN"
  by (cases x) simp_all

lemma sinTheta_NaN:
  assumes "parseFloat (wavelength st) = NaN \<or> parseFloat (particleSize st) = NaN"
  shows "sinThetaOf st m = NaN"
  using assms
  by (auto simp: sinThetaOf_def wavelengthSI_def particleSizeSI_def js_mul_NaN_right
      js_div_NaN_right)

lemma theta_NaN:
  assumes "parseFloat (wavelength st) = NaN \<or> parseFloat (particleSize st) = NaN"
  shows "thetaOf st m = NaN"
  by (simp add: thetaOf_def sinTheta_NaN [OF assms])

lemma radius_NaN:
  assumes "parseFloat (wavelength st) = NaN \<or> parseFloat (particleSize st) = NaN \<or>
    parseFloat (distance st) = NaN"
  shows "radiusOf st m = NaN"
proof (cases "parseFloat (distance st) = NaN")
  case True
  then show ?thesis by (simp add: radiusOf_def distanceSI_def)
next
  case False
  with assms have "thetaOf st m = NaN" by (intro theta_NaN) blast
  then show ?thesis by (simp add: radiusOf_def js_mul_NaN_right)
qed

lemma pixelRadius_NaN:
  assumes "parseFloat (wavelength st) = NaN \<or> parseFloat (particleSize st) = NaN \<or>
    parseFloat (distance st) = NaN"
  shows "pixelRadiusOf st sf m = NaN"
  by (simp add: pixelRadiusOf_def radius_NaN [OF assms])

lemma NaN_never_fits: "\<not> js_le NaN b"
  by (cases b) (simp_all add: js_le_def)

lemma no_rings_when_NaN:
  assumes "parseFloat (wavelength st) = NaN \<or> parseFloat (particleSize st) = NaN \<or>
    parseFloat (distance st) = NaN"
  shows "ringsFrom st sf w h ms = []"
  by (induction ms) (simp_all add: pixelRadius_NaN [OF assms] NaN_never_fits)

lemma spot_in_background:
  "Arc (js_div w (Fin 2)) (js_div h (Fin 2)) (Fin 5) (Fin 0) (js_mul (Fin pi) (Fin 2))
     \<in> set (background w h)"
  by (simp add: background_def)

text \<open>
  Claim C3, amended: when the canvas and its context are there and the wavelength, the
  particle size or the distance parses to \<open>NaN\<close>, then: if it is the wavelength or the
  particle size, every \<open>sinTheta\<close> and \<open>theta\<close> is \<open>NaN\<close>; in each of the three cases every
  pixel radius is \<open>NaN\<close>, which fails the fits-on-canvas comparison; no ring is emitted; and
  the render returns without an exception, having drawn the background with the central
  spot of radius 5 and nothing else.
\<close>

theorem malformed_input_draws_no_ring:
  assumes "mainCanvas w = Some cv" "has2d cv"
    and "parseFloat (wavelength (parameters w)) = NaN \<or>
         parseFloat (particleSize (parameters w)) = NaN \<or>
         parseFloat (distance (parameters w)) = NaN"
  shows "(parseFloat (wavelength (parameters w)) = NaN \<or>
          parseFloat (particleSize (parameters w)) = NaN \<longrightarrow>
            (\<forall>m. sinThetaOf (parameters w) m = NaN \<and> thetaOf (parameters w) m = NaN)) \<and>
         (\<forall>m. pixelRadiusOf (parameters w) (scaleFactorOf (parameters w)) m = NaN) \<and>
         \<not> js_le NaN (Fin (real (min (cwidth cv) (cheight cv)) / 2)) \<and>
         computeRings (parameters w) (cwidth cv) (cheight cv) = [] \<and>
         generatePattern w =
           (None, w\<lparr>mainCanvas := Some (cv\<lparr>calls := calls cv @
              background (Fin (real (cwidth cv))) (Fin (real (cheight cv)))\<rparr>)\<rparr>) \<and>
         Arc (Fin (real (cwidth cv) / 2)) (Fin (real (cheight cv) / 2)) (Fin 5) (Fin 0)
             (Fin (pi * 2))
           \<in> set (background (Fin (real (cwidth cv))) (Fin (real (cheight cv))))"
proof -
  have r: "computeRings (parameters w) (cwidth cv) (cheight cv) = []"
    unfolding computeRings_def by (rule no_rings_when_NaN [OF assms(3)])
  have g: "generatePattern w =
      (None, w\<lparr>mainCanvas := Some (cv\<lparr>calls := calls cv @
         background (Fin (real (cwidth cv))) (Fin (real (cheight cv)))\<rparr>)\<rparr>)"
    by (simp add: generatePattern_rings [OF assms(1,2)] r)
  have s: "Arc (Fin (real (cwidth cv) / 2)) (Fin (real (cheight cv) / 2)) (Fin 5) (Fin 0)
      (Fin (pi * 2)) \<in> set (background (Fin (real (cwidth cv))) (Fin (real (cheight cv))))"
    using spot_in_background [of "Fin (real (cwidth cv))" "Fin (real (cheight cv))"] by simp
  from r g s show ?thesis
    by (simp add: sinTheta_NaN theta_NaN pixelRadius_NaN [OF assms(3)] NaN_never_fits)
qed

theorem malformed_input_draws_no_ring_witness:
  "mainCanvas (page blankWavelength) = Some canvas800x400 \<and> has2d canvas800x400 \<and>
   parseFloat (wavelength (parameters (page blankWavelength))) = NaN \<and>
   sinThetaOf blankWavelength 1 = NaN \<and>
   pixelRadiusOf blankWavelength (scaleFactorOf blankWavelength) 1 = NaN \<and>
   computeRings blankWavelength 800 400 = [] \<and>
   generatePattern (page blankWavelength) =
     (None, (page blankWavelength)\<lparr>mainCanvas :=
        Some (canvas800x400\<lparr>calls := background (Fin 800) (Fin 400)\<rparr>)\<rparr>)"
proof -
  have c: "mainCanvas (page blankWavelength) = Some canvas800x400"
    by (simp add: page_def)
  have h: "has2d canvas800x400"
    by (simp add: canvas800x400_def)
  have n: "parseFloat (wavelength (parameters (page blankWavelength))) = NaN"
    by (simp add: page_def blankWavelength_def parseFloat_empty)
  then have d: "parseFloat (wavelength (parameters (page blankWavelength))) = NaN \<or>
      parseFloat (particleSize (parameters (page blankWavelength))) = NaN \<or>
      parseFloat (distance (parameters (page blankWavelength))) = NaN"
    by blast
  have p: "parameters (page blankWavelength) = blankWavelength"
    by (simp add: page_def)
  from c h n malformed_input_draws_no_ring [OF c h d] show ?thesis
    unfolding p by (simp add: canvas800x400_def)
qed

text \<open>
  Claim C3, as stated, has every computed \<open>sinTheta\<close> and \<open>theta\<close> equal to \<open>NaN\<close> whenever
  a numeric input is malformed. With the distance field empty and the other fields at their
  defaults, order 1 has \<open>sinTheta = 13/600\<close> and \<open>theta = asin (13/600)\<close>: the distance
  enters the formula only after the angle.
\<close>

theorem malformed_distance_sinTheta:
  "parseFloat (distance blankDistance) = NaN \<and>
   sinThetaOf blankDistance 1 = Fin (13 / 600) \<and>
   sinThetaOf blankDistance 1 \<noteq> NaN \<and>
   thetaOf blankDistance 1 = Fin (arcsin (13 / 600)) \<and>
   thetaOf blankDistance 1 \<noteq> NaN"
proof -
  have s: "sinThetaOf blankDistance 1 = Fin (13 / 600)"
    by (simp add: blankDistance_def mounted_eq sinThetaOf_fin [where wl = 650 and p = 30]
        parseFloat_650 parseFloat_30)
  then show ?thesis
    by (simp add: thetaOf_def blankDistance_def parseFloat_empty)
qed

section \<open>The caption\<close>

lemma drawRings_fine:
  assumes "\<forall>r \<in> set rs. \<not> arcRaises cx cy (pixelRadius r)"
  shows "drawRings cx cy rs cs =
           (None, cs @ concat (map (\<lambda>r. ringCalls cx cy (order r) (pixelRadius r)) rs))"
  using assms by (induction rs arbitrary: cs) simp_all

lemma tan_arcsin_nonneg:
  assumes "0 \<le> x" "x < 1"
  shows "0 \<le> tan (arcsin x)"
  using tan_arcsin_mono [of 0 x] assms by simp

lemma draw_mounted:
  "drawOrders mounted (Fin 4000) (Fin 800) (Fin 400) [1..<Suc maxOrder] cs =
     (None, cs @ ringCalls (Fin 400) (Fin 200) 1 (pixelRadiusOf mounted (Fin 4000) 1)
               @ ringCalls (Fin 400) (Fin 200) 2 (pixelRadiusOf mounted (Fin 4000) 2))"
proof -
  have r: "ringsFrom mounted (Fin 4000) (Fin 800) (Fin 400) [1..<Suc maxOrder] =
      [\<lparr>order = 1, pixelRadius = pixelRadiusOf mounted (Fin 4000) 1\<rparr>,
       \<lparr>order = 2, pixelRadius = pixelRadiusOf mounted (Fin 4000) 2\<rparr>]"
    using rings_mounted by (simp add: computeRings_def scale_mounted del: upt_Suc)
  have "0 \<le> tan (arcsin (13 / 600 :: real))" "0 \<le> tan (arcsin (13 / 300 :: real))"
    by (rule tan_arcsin_nonneg; simp)+
  then have "\<not> arcRaises (Fin 400) (Fin 200) (pixelRadiusOf mounted (Fin 4000) 1)"
    and "\<not> arcRaises (Fin 400) (Fin 200) (pixelRadiusOf mounted (Fin 4000) 2)"
    by (simp_all add: arcRaises_def pixelRadius_mounted not_less)
  then show ?thesis
    unfolding drawOrders_computed r
    by (simp add: drawRings_fine del: One_nat_def)
qed

text \<open>The two renders at the default parameters, call by call.\<close>

lemma render_default:
  "generatePattern (page mounted) =
     (None, (page mounted)\<lparr>mainCanvas := Some (canvas800x400\<lparr>calls :=
        background (Fin 800) (Fin 400)
        @ ringCalls (Fin 400) (Fin 200) 1 (pixelRadiusOf mounted (Fin 4000) 1)
        @ ringCalls (Fin 400) (Fin 200) 2 (pixelRadiusOf mounted (Fin 4000) 2)\<rparr>)\<rparr>)"
  by (simp add: generatePattern_def page_def canvas800x400_def scale_mounted draw_mounted
      Let_def del: upt_Suc One_nat_def)

lemma render_index_default:
  "generatePattern_index (page mounted) =
     (None, (page mounted)\<lparr>mainCanvas := Some (canvas800x400\<lparr>calls :=
        background (Fin 800) (Fin 400)
        @ ringCalls (Fin 400) (Fin 200) 1 (pixelRadiusOf mounted (Fin 4000) 1)
        @ ringCalls (Fin 400) (Fin 200) 2 (pixelRadiusOf mounted (Fin 4000) 2)
        @ caption (Fin 400)\<rparr>)\<rparr>)"
  by (simp add: generatePattern_index_def page_def canvas800x400_def draw_mounted
      Let_def del: upt_Suc One_nat_def)

text \<open>
  Claim C7, as stated, has every invocation of the render draw the caption after the
  rings. Two invocations that do not: the component with zoom, at the default parameters on
  the 800 by 400 canvas, returns after the label of ring 2, its last call; and the
  component without zoom, finding the canvas without a 2D context, returns at once and
  leaves the canvas, which had no calls, with none.
\<close>

theorem render_without_caption:
  "generatePattern (page mounted) =
     (None, (page mounted)\<lparr>mainCanvas := Some (canvas800x400\<lparr>calls :=
        background (Fin 800) (Fin 400)
        @ ringCalls (Fin 400) (Fin 200) 1 (pixelRadiusOf mounted (Fin 4000) 1)
        @ ringCalls (Fin 400) (Fin 200) 2 (pixelRadiusOf mounted (Fin 4000) 2)\<rparr>)\<rparr>) \<and>
   last (ringCalls (Fin 400) (Fin 200) 2 (pixelRadiusOf mounted (Fin 4000) 2)) =
     FillText ''m=2'' (js_add (js_add (Fin 400) (pixelRadiusOf mounted (Fin 4000) 2)) (Fin 5))
       (Fin 200) \<and>
   generatePattern_index ((page mounted)\<lparr>mainCanvas := Some noContext\<rparr>) =
     (None, (page mounted)\<lparr>mainCanvas := Some noContext\<rparr>) \<and>
   calls noContext = []"
  by (simp add: render_default ringCalls_def show_nat.simps generatePattern_index_def
      noContext_def)

text \<open>
  Claim C7, amended: in the component without zoom, an invocation of the render that finds
  the canvas and its context and raises no exception ends, after the loop over the rings,
  with the three calls that draw the fixed caption at \<open>(20, height - 20)\<close>.
\<close>

theorem caption_after_rings:
  assumes "mainCanvas w = Some cv" "has2d cv" "fst (generatePattern_index w) = None"
  shows "snd (generatePattern_index w) =
           w\<lparr>mainCanvas := Some (cv\<lparr>calls :=
             snd (drawOrders (parameters w) (Fin 4000) (Fin (real (cwidth cv)))
                    (Fin (real (cheight cv))) [1..<Suc maxOrder]
                    (calls cv @ background (Fin (real (cwidth cv))) (Fin (real (cheight cv)))))
             @ [SetFillStyle ''rgba(255, 255, 255, 0.7)'',
                SetFont ''14px Arial'',
                FillText ''Note: Diffraction pattern scale has been enhanced for visibility''
                  (Fin 20) (Fin (real (cheight cv) - 20))]\<rparr>)\<rparr>"
proof -
  let ?r = "drawOrders (parameters w) (Fin 4000) (Fin (real (cwidth cv)))
      (Fin (real (cheight cv))) [1..<Suc maxOrder]
      (calls cv @ background (Fin (real (cwidth cv))) (Fin (real (cheight cv))))"
  from assms have "fst ?r = None"
    by (simp add: generatePattern_index_def Let_def del: upt_Suc split: if_splits)
  with assms(1,2) show ?thesis
    by (simp add: generatePattern_index_def Let_def caption_def del: upt_Suc)
qed

theorem caption_after_rings_witness:
  "mainCanvas (page mounted) = Some canvas800x400 \<and> has2d canvas800x400 \<and>
   fst (generatePattern_index (page mounted)) = None \<and>
   mainCanvas (snd (generatePattern_index (page mounted))) =
     Some (canvas800x400\<lparr>calls :=
        background (Fin 800) (Fin 400)
        @ ringCalls (Fin 400) (Fin 200) 1 (pixelRadiusOf mounted (Fin 4000) 1)
        @ ringCalls (Fin 400) (Fin 200) 2 (pixelRadiusOf mounted (Fin 4000) 2)
        @ [SetFillStyle ''rgba(255, 255, 255, 0.7)'',
           SetFont ''14px Arial'',
           FillText ''Note: Diffraction pattern scale has been enhanced for visibility''
             (Fin 20) (Fin 380)]\<rparr>)"
proof -
  have c: "mainCanvas (page mounted) = Some canvas800x400"
    by (simp add: page_def)
  have h: "has2d canvas800x400"
    by (simp add: canvas800x400_def)
  have n: "fst (generatePattern_index (page mounted)) = None"
    by (simp add: render_index_default)
  have p: "parameters (page mounted) = mounted"
    by (simp add: page_def)
  from c h n caption_after_rings [OF c h n] show ?thesis
    unfolding p by (simp add: canvas800x400_def draw_mounted del: upt_Suc One_nat_def)
qed


text \<open>
  The render of the component with zoom ends with the loop: it never draws the caption
  text.
\<close>

lemma drawRings_calls:
  assumes "c \<in> set (snd (drawRings cx cy rs cs))"
  shows "c \<in> set cs \<or> c \<in> set ringSetup \<or>
         (\<exists>r \<in> set rs. c \<in> set (ringCalls cx cy (order r) (pixelRadius r)))"
  using assms
proof (induction rs arbitrary: cs)
  case Nil
  then show ?case by simp
next
  case (Cons r rs)
  show ?case
  proof (cases "arcRaises cx cy (pixelRadius r)")
    case True
    with Cons.prems show ?thesis by auto
  next
    case False
    with Cons.prems have "c \<in> set (snd (drawRings cx cy rs
        (cs @ ringCalls cx cy (order r) (pixelRadius r))))"
      by simp
    from Cons.IH [OF this] show ?thesis by auto
  qed
qed

lemma zoom_variant_draws_no_caption:
  assumes "mainCanvas w = Some cv" "has2d cv"
    and "FillText ''Note: Diffraction pattern scale has been enhanced for visibility'' x y
           \<notin> set (calls cv)"
  shows "\<exists>cv'. mainCanvas (snd (generatePattern w)) = Some cv' \<and>
           FillText ''Note: Diffraction pattern scale has been enhanced for visibility'' x y
             \<notin> set (calls cv')"
proof -
  let ?note = "FillText ''Note: Diffraction pattern scale has been enhanced for visibility'' x y"
  let ?W = "Fin (real (cwidth cv))" and ?H = "Fin (real (cheight cv))"
  let ?r = "drawRings (Fin (real (cwidth cv) / 2)) (Fin (real (cheight cv) / 2))
      (computeRings (parameters w) (cwidth cv) (cheight cv)) (calls cv @ background ?W ?H)"
  have "?note \<notin> set (snd ?r)"
  proof
    assume "?note \<in> set (snd ?r)"
    from drawRings_calls [OF this] assms(3) show False
      by (auto simp: background_def ringSetup_def ringCalls_def)
  qed
  then show ?thesis
    by (simp add: generatePattern_rings [OF assms(1,2)])
qed

section \<open>Missing canvas or context\<close>

text \<open>
  Claim C8, amended: a render that finds no main canvas, or a main canvas without a 2D
  context, and a screenshot that finds no main canvas, no screenshot canvas, or a screenshot
  canvas without a 2D context, return without an exception and leave the whole component as
  it was: both canvases (nothing drawn), the downloads (none triggered) and the parameters.
\<close>

theorem missing_context_is_no_op:
  "(mainCanvas w = None \<or> (\<exists>cv. mainCanvas w = Some cv \<and> \<not> has2d cv) \<longrightarrow>
      generatePattern w = (None, w) \<and> generatePattern_index w = (None, w)) \<and>
   (mainCanvas w = None \<or> screenshotCanvas w = None \<or>
      (\<exists>sc. screenshotCanvas w = Some sc \<and> \<not> has2d sc) \<longrightarrow>
      takeScreenshot clk w = (None, w))"
proof -
  have "generatePattern w = (None, w) \<and> generatePattern_index w = (None, w)"
    if "mainCanvas w = None \<or> (\<exists>cv. mainCanvas w = Some cv \<and> \<not> has2d cv)"
    using that by (auto simp: generatePattern_def generatePattern_index_def)
  moreover have "takeScreenshot clk w = (None, w)"
    if "mainCanvas w = None \<or> screenshotCanvas w = None \<or>
      (\<exists>sc. screenshotCanvas w = Some sc \<and> \<not> has2d sc)"
    using that by (auto simp: takeScreenshot_def split: option.splits)
  ultimately show ?thesis by blast
qed

theorem missing_context_is_no_op_witness:
  "mainCanvas ((page mounted)\<lparr>mainCanvas := None\<rparr>) = None \<and>
   generatePattern ((page mounted)\<lparr>mainCanvas := None\<rparr>) =
     (None, (page mounted)\<lparr>mainCanvas := None\<rparr>) \<and>
   takeScreenshot noon ((page mounted)\<lparr>mainCanvas := None\<rparr>) =
     (None, (page mounted)\<lparr>mainCanvas := None\<rparr>) \<and>
   mainCanvas ((page mounted)\<lparr>mainCanvas := Some noContext\<rparr>) = Some noContext \<and>
   \<not> has2d noContext \<and>
   generatePattern ((page mounted)\<lparr>mainCanvas := Some noContext\<rparr>) =
     (None, (page mounted)\<lparr>mainCanvas := Some noContext\<rparr>) \<and>
   screenshotCanvas ((page mounted)\<lparr>screenshotCanvas := Some noContext\<rparr>) = Some noContext \<and>
   takeScreenshot noon ((page mounted)\<lparr>screenshotCanvas := Some noContext\<rparr>) =
     (None, (page mounted)\<lparr>screenshotCanvas := Some noContext\<rparr>)"
proof -
  have a: "mainCanvas ((page mounted)\<lparr>mainCanvas := None\<rparr>) = None"
    by simp
  have b: "mainCanvas ((page mounted)\<lparr>mainCanvas := Some noContext\<rparr>) = Some noContext"
    "\<not> has2d noContext"
    by (simp_all add: noContext_def)
  have c: "screenshotCanvas ((page mounted)\<lparr>screenshotCanvas := Some noContext\<rparr>) =
      Some noContext"
    by simp
  from a b c
    missing_context_is_no_op [of "(page mounted)\<lparr>mainCanvas := None\<rparr>" noon]
    missing_context_is_no_op [of "(page mounted)\<lparr>mainCanvas := Some noContext\<rparr>" noon]
    missing_context_is_no_op [of "(page mounted)\<lparr>screenshotCanvas := Some noContext\<rparr>" noon]
  show ?thesis by simp
qed

text \<open>With both canvases and the context there, the screenshot triggers one download.\<close>

lemma screenshot_default:
  "fst (takeScreenshot noon (page mounted)) = None \<and>
   map filename (downloads (snd (takeScreenshot noon (page mounted)))) =
     [''laser-diffraction-1793620800000.png'']"
  by (simp add: takeScreenshot_def page_def canvas800x400_def canvas800x500_def noon_def
      mounted_eq Let_def show_nat.simps)

text \<open>
  Claim C8, as stated, has the render and the screenshot both return at once whenever the
  canvas or its 2D context is missing. With a main canvas that has no 2D context (and the
  screenshot canvas in order) the render does return at once, but the screenshot, which
  tests the reference to the main canvas and not that canvas's context, draws and triggers
  its download.
\<close>

theorem screenshot_reads_no_main_context:
  "mainCanvas ((page mounted)\<lparr>mainCanvas := Some noContext\<rparr>) = Some noContext \<and>
   \<not> has2d noContext \<and>
   generatePattern ((page mounted)\<lparr>mainCanvas := Some noContext\<rparr>) =
     (None, (page mounted)\<lparr>mainCanvas := Some noContext\<rparr>) \<and>
   fst (takeScreenshot noon ((page mounted)\<lparr>mainCanvas := Some noContext\<rparr>)) = None \<and>
   map filename
     (downloads (snd (takeScreenshot noon ((page mounted)\<lparr>mainCanvas := Some noContext\<rparr>)))) =
     [''laser-diffraction-1793620800000.png'']"
  by (simp add: generatePattern_def takeScreenshot_def page_def noContext_def canvas800x500_def
      noon_def mounted_eq Let_def show_nat.simps)

section \<open>The material selection and the picture\<close>

lemma drawOrders_cong:
  assumes "\<And>m. sinThetaOf st1 m = sinThetaOf st2 m"
    and "\<And>m. pixelRadiusOf st1 sf m = pixelRadiusOf st2 sf m"
  shows "drawOrders st1 sf w h ms cs = drawOrders st2 sf w h ms cs"
  by (induction ms arbitrary: cs) (simp_all add: assms)

text \<open>
  Claim C9: two components that agree on wavelength, distance, particle size and zoom and
  on the canvas, whatever their material selections, render alike: the same exception or
  none, and the same sequence of calls on the canvas, hence the same picture. This holds
  for the component with zoom and for the one without.
\<close>

theorem material_not_read:
  assumes "wavelength (parameters w1) = wavelength (parameters w2)"
    and "distance (parameters w1) = distance (parameters w2)"
    and "particleSize (parameters w1) = particleSize (parameters w2)"
    and "zoomLevel (parameters w1) = zoomLevel (parameters w2)"
    and "mainCanvas w1 = mainCanvas w2"
  shows "fst (generatePattern w1) = fst (generatePattern w2) \<and>
         mainCanvas (snd (generatePattern w1)) = mainCanvas (snd (generatePattern w2)) \<and>
         fst (generatePattern_index w1) = fst (generatePattern_index w2) \<and>
         mainCanvas (snd (generatePattern_index w1)) =
           mainCanvas (snd (generatePattern_index w2))"
proof -
  have s: "sinThetaOf (parameters w1) m = sinThetaOf (parameters w2) m" for m
    using assms(1,3) by (simp add: sinThetaOf_def wavelengthSI_def particleSizeSI_def)
  have p: "pixelRadiusOf (parameters w1) sf m = pixelRadiusOf (parameters w2) sf m" for sf m
    using assms(2) by (simp add: pixelRadiusOf_def radiusOf_def thetaOf_def distanceSI_def s)
  have z: "scaleFactorOf (parameters w1) = scaleFactorOf (parameters w2)"
    using assms(4) by (simp add: scaleFactorOf_def)
  have d: "drawOrders (parameters w1) sf w h ms cs = drawOrders (parameters w2) sf w h ms cs"
    for sf w h ms cs
    by (rule drawOrders_cong) (simp_all add: s p)
  show ?thesis
  proof (cases "mainCanvas w2")
    case None
    with assms(5) show ?thesis
      by (simp add: generatePattern_def generatePattern_index_def)
  next
    case (Some cv)
    with assms(5) show ?thesis
      by (simp add: generatePattern_def generatePattern_index_def Let_def z d del: upt_Suc)
  qed
qed

theorem material_not_read_witness:
  "wavelength (parameters (page mounted)) =
     wavelength (parameters (page (mounted\<lparr>selectedMaterial := ''custom''\<rparr>))) \<and>
   selectedMaterial (parameters (page mounted)) \<noteq>
     selectedMaterial (parameters (page (mounted\<lparr>selectedMaterial := ''custom''\<rparr>))) \<and>
   fst (generatePattern (page mounted)) =
     fst (generatePattern (page (mounted\<lparr>selectedMaterial := ''custom''\<rparr>))) \<and>
   mainCanvas (snd (generatePattern (page mounted))) =
     mainCanvas (snd (generatePattern (page (mounted\<lparr>selectedMaterial := ''custom''\<rparr>))))"
proof -
  have m: "selectedMaterial (parameters (page mounted)) \<noteq>
      selectedMaterial (parameters (page (mounted\<lparr>selectedMaterial := ''custom''\<rparr>)))"
    by (simp add: page_def mounted_eq)
  from m material_not_read [of "page mounted" "page (mounted\<lparr>selectedMaterial := ''custom''\<rparr>)"]
  show ?thesis by (simp add: page_def)
qed

end
